theory Spec2Isabelle
  imports Main "HOL-Library.AList"
begin

section \<open>The connection manager (src/nodes/connectionManager.ts)\<close>

text \<open>
  The class \<^verbatim>\<open>ConnectionManager\<close> has two private fields: the number
  \<^verbatim>\<open>connectionCount\<close> and the set \<^verbatim>\<open>registeredNodes\<close>. A JavaScript
  \<^verbatim>\<open>Set<string>\<close> keeps its elements in insertion order and without duplicates, and
  \<^verbatim>\<open>getRegisteredNodes\<close> exposes that order through \<^verbatim>\<open>Array.from\<close>, so the set is a
  list here, with the three operations the class uses. The counter is an integer: the
  source compares it with \<^verbatim>\<open><= 0\<close> and resets it to \<^verbatim>\<open>0\<close>, which a natural number
  would hide. (A JavaScript number is exact on integers below \<open>2^53\<close>; the counter is
  taken to stay in that range.)

  The calls to \<^verbatim>\<open>console.log\<close> only print; they are left out. The one call that
  acts on the outside, \<^verbatim>\<open>ipc.disconnect('bot')\<close>, is an effect that \<open>disconnect\<close> returns.
\<close>

record ConnectionManager =
  connectionCount :: int
  registeredNodes :: "string list"

datatype json =
    JUndefined
  | JNull
  | JBool bool
  | JNum int
  | JStr string
  | JArr "json list"
  | JObj "(string \<times> json) list"

datatype effect =
    HelperConnection json
  | IpcConnectTo string
  | IpcEmit string json
  | IpcOn string string
  | IpcDisconnect string

definition set_has :: "string list \<Rightarrow> string \<Rightarrow> bool" where
  "set_has xs x = (x \<in> set xs)"

definition set_add :: "string list \<Rightarrow> string \<Rightarrow> string list" where
  "set_add xs x = (if x \<in> set xs then xs else xs @ [x])"

definition set_clear :: "string list \<Rightarrow> string list" where
  "set_clear xs = []"

definition initial :: ConnectionManager where
  "initial = \<lparr>connectionCount = 0, registeredNodes = []\<rparr>"

definition isNodeRegistered :: "ConnectionManager \<Rightarrow> string \<Rightarrow> bool" where
  "isNodeRegistered s nodeId = set_has (registeredNodes s) nodeId"

definition connect :: "ConnectionManager \<Rightarrow> string \<Rightarrow> bool \<times> ConnectionManager" where
  "connect s nodeId =
     (let s1 = s\<lparr>connectionCount := connectionCount s + 1\<rparr> in
      if set_has (registeredNodes s1) nodeId then (False, s1)
      else (True, s1\<lparr>registeredNodes := set_add (registeredNodes s1) nodeId\<rparr>))"

definition disconnect :: "ConnectionManager \<Rightarrow> string \<Rightarrow> effect list \<times> ConnectionManager" where
  "disconnect s nodeId =
     (if connectionCount s \<le> 0 then ([], s)
      else
        let s1 = s\<lparr>connectionCount := connectionCount s - 1\<rparr> in
        if connectionCount s1 \<le> 0
        then ([IpcDisconnect ''bot''],
              s1\<lparr>connectionCount := 0, registeredNodes := set_clear (registeredNodes s1)\<rparr>)
        else ([], s1))"

definition getConnectionCount :: "ConnectionManager \<Rightarrow> int" where
  "getConnectionCount s = connectionCount s"

definition getRegisteredNodes :: "ConnectionManager \<Rightarrow> string list" where
  "getRegisteredNodes s = registeredNodes s"

text \<open>
  A sequence of calls on the singleton, with the effects collected in order.
\<close>

datatype call = Connect string | Disconnect string

fun step :: "effect list \<times> ConnectionManager \<Rightarrow> call \<Rightarrow> effect list \<times> ConnectionManager" where
  "step (es, s) (Connect nodeId) = (es, snd (connect s nodeId))"
| "step (es, s) (Disconnect nodeId) = (es @ fst (disconnect s nodeId), snd (disconnect s nodeId))"

definition run :: "call list \<Rightarrow> effect list \<times> ConnectionManager" where
  "run cs = foldl step ([], initial) cs"

definition connects :: "call list \<Rightarrow> int" where
  "connects cs = int (length (filter (\<lambda>c. case c of Connect _ \<Rightarrow> True | Disconnect _ \<Rightarrow> False) cs))"

definition disconnects :: "call list \<Rightarrow> int" where
  "disconnects cs = int (length (filter (\<lambda>c. case c of Connect _ \<Rightarrow> False | Disconnect _ \<Rightarrow> True) cs))"

text \<open>
  The counter a reader of the calls alone would keep: one up for a connect, one down
  for a disconnect, never below zero.
\<close>

fun floored :: "int \<Rightarrow> call \<Rightarrow> int" where
  "floored n (Connect _) = n + 1"
| "floored n (Disconnect _) = max 0 (n - 1)"

text \<open>
  The data model's typing of the counter, and the invariant that ties the set to it.
\<close>

definition count_ok :: "ConnectionManager \<Rightarrow> bool" where
  "count_ok s = (0 \<le> connectionCount s)"

definition bound_active :: "ConnectionManager \<Rightarrow> bool" where
  "bound_active s = (registeredNodes s \<noteq> [] \<longrightarrow> 0 < connectionCount s)"

section \<open>JavaScript values\<close>

text \<open>
  The payloads that arrive over the IPC channel, the credentials and the node parameters
  are untyped in the source (\<^verbatim>\<open>any\<close>). They are values of \<^typ>\<open>json\<close>; an object is
  the list of its own properties in enumeration order. The model appends a new key at the
  end, which is JavaScript's order for every key that is not an array index; the
  properties stated below are about lookups and about keys that begin with a letter.

  Reading a property of \<^verbatim>\<open>undefined\<close> or \<^verbatim>\<open>null\<close> throws a \<^verbatim>\<open>TypeError\<close>; that is
  the only exception the handlers can raise by themselves.
\<close>

datatype error = TypeError

definition and_then :: "error + 'a \<Rightarrow> ('a \<Rightarrow> error + 'b) \<Rightarrow> error + 'b" where
  "and_then r f = (case r of Inl e \<Rightarrow> Inl e | Inr v \<Rightarrow> f v)"

fun truthy :: "json \<Rightarrow> bool" where
  "truthy JUndefined = False"
| "truthy JNull = False"
| "truthy (JBool b) = b"
| "truthy (JNum n) = (n \<noteq> 0)"
| "truthy (JStr s) = (s \<noteq> [])"
| "truthy (JArr xs) = True"
| "truthy (JObj al) = True"

fun nullish :: "json \<Rightarrow> bool" where
  "nullish JUndefined = True"
| "nullish JNull = True"
| "nullish v = False"

definition own_prop :: "(string \<times> json) list \<Rightarrow> string \<Rightarrow> json" where
  "own_prop al k = (case map_of al k of None \<Rightarrow> JUndefined | Some v \<Rightarrow> v)"

text \<open>
  \<open>opt_prop v k\<close> is \<^verbatim>\<open>v?.k\<close> and \<open>get_prop v k\<close> is \<^verbatim>\<open>v.k\<close>. The names the source reads
  (\<^verbatim>\<open>id\<close>, \<^verbatim>\<open>content\<close>, \<^verbatim>\<open>channelId\<close>, \<^verbatim>\<open>username\<close>, \<^verbatim>\<open>createdTimestamp\<close>, \<^verbatim>\<open>bot\<close>,
  \<^verbatim>\<open>system\<close>, \<^verbatim>\<open>token\<close> and the names of the payload's parts) are properties of no
  string, number, boolean or array, so on those both give \<^verbatim>\<open>undefined\<close>.
\<close>

fun opt_prop :: "json \<Rightarrow> string \<Rightarrow> json" where
  "opt_prop (JObj al) k = own_prop al k"
| "opt_prop v k = JUndefined"

definition get_prop :: "json \<Rightarrow> string \<Rightarrow> error + json" where
  "get_prop v k = (if nullish v then Inl TypeError else Inr (opt_prop v k))"

definition js_or :: "json \<Rightarrow> json \<Rightarrow> json" where
  "js_or a b = (if truthy a then a else b)"

definition set_prop :: "(string \<times> json) list \<Rightarrow> string \<Rightarrow> json \<Rightarrow> (string \<times> json) list" where
  "set_prop obj k v = AList.update k v obj"

text \<open>
  The decimal name of an array index, as the keys of an array or string are spelt.
\<close>

definition digit_char :: "nat \<Rightarrow> char" where
  "digit_char d = char_of (48 + d)"

fun string_of_nat :: "nat \<Rightarrow> string" where
  "string_of_nat n =
     (if 10 \<le> n then string_of_nat (n div 10) @ [digit_char (n mod 10)]
      else [digit_char n])"

declare string_of_nat.simps [simp del]

fun indexed :: "nat \<Rightarrow> json list \<Rightarrow> (string \<times> json) list" where
  "indexed i [] = []"
| "indexed i (x # xs) = (string_of_nat i, x) # indexed (Suc i) xs"

text \<open>
  The own enumerable string-keyed properties of a value, as \<^verbatim>\<open>Object.entries\<close> and the
  spread \<^verbatim>\<open>{...v}\<close> see them: the elements of an array and the characters of a string
  under their indices, nothing for a number or a boolean. The spread takes \<^verbatim>\<open>undefined\<close>
  and \<^verbatim>\<open>null\<close> as empty; \<^verbatim>\<open>Object.entries\<close> throws on them.
\<close>

fun own_entries :: "json \<Rightarrow> (string \<times> json) list" where
  "own_entries (JObj al) = al"
| "own_entries (JArr xs) = indexed 0 xs"
| "own_entries (JStr s) = indexed 0 (map (\<lambda>c. JStr [c]) s)"
| "own_entries v = []"

definition Object_entries :: "json \<Rightarrow> error + (string \<times> json) list" where
  "Object_entries v = (if nullish v then Inl TypeError else Inr (own_entries v))"

definition Object_fromEntries :: "(string \<times> json) list \<Rightarrow> (string \<times> json) list" where
  "Object_fromEntries es = foldl (\<lambda>obj (k, v). set_prop obj k v) [] es"

definition spread :: "(string \<times> json) list \<Rightarrow> json \<Rightarrow> (string \<times> json) list" where
  "spread obj v = foldl (\<lambda>obj (k, v). set_prop obj k v) obj (own_entries v)"

text \<open>
  Strings are lists of 8-bit characters. \<^verbatim>\<open>toUpperCase\<close> is modelled on ASCII, where it
  maps \<^verbatim>\<open>a\<close>..\<^verbatim>\<open>z\<close> to \<^verbatim>\<open>A\<close>..\<^verbatim>\<open>Z\<close> and changes nothing else; the property names of the
  payloads are ASCII identifiers.
\<close>

definition upper_char :: "char \<Rightarrow> char" where
  "upper_char c =
     (if 97 \<le> (of_char c :: nat) \<and> (of_char c :: nat) \<le> 122
      then char_of ((of_char c :: nat) - 32) else c)"

definition toUpperCase :: "string \<Rightarrow> string" where
  "toUpperCase s = map upper_char s"

definition charAt :: "string \<Rightarrow> nat \<Rightarrow> string" where
  "charAt s i = take 1 (drop i s)"

definition slice :: "string \<Rightarrow> nat \<Rightarrow> string" where
  "slice s i = drop i s"

section \<open>The trigger node (src/nodes/DiscordTrigger/DiscordTrigger.node.ts)\<close>

text \<open>
  What the host framework gives an activation through \<^verbatim>\<open>this\<close>: the node's id and raw
  parameters, the resolver \<^verbatim>\<open>getNodeParameter\<close>, the workflow's \<^verbatim>\<open>active\<close> flag, and how
  the promise of \<^verbatim>\<open>this.getCredentials('discordBotTriggerApi')\<close> settles. The source
  awaits that promise behind \<^verbatim>\<open>.catch((e) => e)\<close>, so a rejection does not throw: its
  reason becomes the value of \<^verbatim>\<open>credentials\<close>.
\<close>

datatype settled = Resolved json | Rejected json

record node_context =
  node_id :: string
  node_parameters :: "(string \<times> json) list"
  getNodeParameter :: "string \<Rightarrow> json \<Rightarrow> json"
  workflow_active :: bool
  getCredentials :: settled

fun caught :: "settled \<Rightarrow> json" where
  "caught (Resolved v) = v"
| "caught (Rejected e) = e"

definition credentials :: "node_context \<Rightarrow> json" where
  "credentials ctx = caught (getCredentials ctx)"

text \<open>
  \<^verbatim>\<open>addPrefix\<close>, defined twice in the source with the same body.
\<close>

definition prefixed :: "string \<Rightarrow> string \<Rightarrow> string" where
  "prefixed prefix key = prefix @ toUpperCase (charAt key 0) @ slice key 1"

definition addPrefix :: "json \<Rightarrow> string \<Rightarrow> error + json" where
  "addPrefix obj prefix =
     and_then (Object_entries obj) (\<lambda>es.
       Inr (JObj (Object_fromEntries (map (\<lambda>(key, val). (prefixed prefix key, val)) es))))"

text \<open>
  The nine listeners. Each takes the context of the activation that attached it and the
  payload of the event, and returns the values it hands to
  \<^verbatim>\<open>this.emit([this.helpers.returnJsonArray(v)])\<close>, in order: none when the event is for
  another node, one otherwise. \<^verbatim>\<open>emit\<close> and \<^verbatim>\<open>returnJsonArray\<close> belong to the host.
  Destructuring the parameter throws when the payload is \<^verbatim>\<open>undefined\<close> or \<^verbatim>\<open>null\<close>.
\<close>

definition messageCreate :: "node_context \<Rightarrow> json \<Rightarrow> error + json list" where
  "messageCreate ctx payload =
     (if nullish payload then Inl TypeError else
      let message = opt_prop payload ''message'';
          author = opt_prop payload ''author'';
          guild = opt_prop payload ''guild'';
          nodeId = opt_prop payload ''nodeId'';
          messageReference = opt_prop payload ''messageReference'';
          attachments = opt_prop payload ''attachments'';
          referenceAuthor = opt_prop payload ''referenceAuthor''
      in
      if JStr (node_id ctx) = nodeId then
        and_then (get_prop message ''id'') (\<lambda>m_id.
        and_then (get_prop message ''content'') (\<lambda>m_content.
        and_then (get_prop message ''channelId'') (\<lambda>m_channelId.
        and_then (get_prop author ''id'') (\<lambda>a_id.
        and_then (get_prop author ''username'') (\<lambda>a_username.
        and_then (get_prop message ''createdTimestamp'') (\<lambda>m_createdTimestamp.
        and_then (get_prop author ''bot'') (\<lambda>a_bot.
        and_then (get_prop author ''system'') (\<lambda>a_system.
        let messageCreateOptions =
              [(''id'', m_id),
               (''content'', m_content),
               (''guildId'', opt_prop guild ''id''),
               (''channelId'', m_channelId),
               (''authorId'', a_id),
               (''authorName'', a_username),
               (''timestamp'', m_createdTimestamp),
               (''listenValue'', getNodeParameter ctx ''value'' (JStr [])),
               (''authorIsBot'', js_or a_bot a_system),
               (''referenceId'', JNull),
               (''referenceContent'', JNull),
               (''referenceAuthorId'', JNull),
               (''referenceAuthorName'', JNull),
               (''referenceTimestamp'', JNull)]
        in
        and_then
          (if truthy messageReference then
             and_then (get_prop messageReference ''id'') (\<lambda>r_id.
             and_then (get_prop messageReference ''content'') (\<lambda>r_content.
             and_then (get_prop referenceAuthor ''id'') (\<lambda>ra_id.
             and_then (get_prop referenceAuthor ''username'') (\<lambda>ra_username.
             and_then (get_prop messageReference ''createdTimestamp'') (\<lambda>r_createdTimestamp.
               Inr (set_prop (set_prop (set_prop (set_prop (set_prop messageCreateOptions
                      ''referenceId'' r_id)
                      ''referenceContent'' r_content)
                      ''referenceAuthorId'' ra_id)
                      ''referenceAuthorName'' ra_username)
                      ''referenceTimestamp'' r_createdTimestamp))))))
           else Inr messageCreateOptions)
          (\<lambda>opts.
             Inr [JObj (if truthy attachments then set_prop opts ''attachments'' attachments
                        else opts)])))))))))
      else Inr [])"

definition guildMemberAdd :: "node_context \<Rightarrow> json \<Rightarrow> error + json list" where
  "guildMemberAdd ctx payload =
     (if nullish payload then Inl TypeError else
      let guildMember = opt_prop payload ''guildMember'';
          nodeId = opt_prop payload ''nodeId''
      in if JStr (node_id ctx) = nodeId then Inr [guildMember] else Inr [])"

definition guildMemberRemove :: "node_context \<Rightarrow> json \<Rightarrow> error + json list" where
  "guildMemberRemove ctx payload =
     (if nullish payload then Inl TypeError else
      let guildMember = opt_prop payload ''guildMember'';
          nodeId = opt_prop payload ''nodeId''
      in if JStr (node_id ctx) = nodeId then Inr [guildMember] else Inr [])"

definition guildMemberUpdate :: "node_context \<Rightarrow> json \<Rightarrow> error + json list" where
  "guildMemberUpdate ctx payload =
     (if nullish payload then Inl TypeError else
      let oldMember = opt_prop payload ''oldMember'';
          newMember = opt_prop payload ''newMember'';
          guild = opt_prop payload ''guild'';
          nodeId = opt_prop payload ''nodeId''
      in
      if JStr (node_id ctx) = nodeId then
        and_then (addPrefix oldMember ''old'') (\<lambda>olds.
        and_then (addPrefix newMember ''new'') (\<lambda>news.
        and_then (addPrefix guild ''guild'') (\<lambda>guilds.
          Inr [JObj (spread (spread (spread [] olds) news) guilds)])))
      else Inr [])"

definition messageReaction :: "node_context \<Rightarrow> json \<Rightarrow> error + json list" where
  "messageReaction ctx payload =
     (if nullish payload then Inl TypeError else
      let messageReaction = opt_prop payload ''messageReaction'';
          message = opt_prop payload ''message'';
          user = opt_prop payload ''user'';
          guild = opt_prop payload ''guild'';
          nodeId = opt_prop payload ''nodeId''
      in
      if JStr (node_id ctx) = nodeId then
        and_then (get_prop message ''channelId'') (\<lambda>m_channelId.
        and_then (get_prop guild ''id'') (\<lambda>g_id.
          Inr [JObj (set_prop (set_prop (spread (spread [] messageReaction) user)
                       ''channelId'' m_channelId) ''guildId'' g_id)]))
      else Inr [])"

definition messageReactionAdd :: "node_context \<Rightarrow> json \<Rightarrow> error + json list" where
  "messageReactionAdd = messageReaction"

definition messageReactionRemove :: "node_context \<Rightarrow> json \<Rightarrow> error + json list" where
  "messageReactionRemove = messageReaction"

definition roleCreate :: "node_context \<Rightarrow> json \<Rightarrow> error + json list" where
  "roleCreate ctx payload =
     (if nullish payload then Inl TypeError else
      let role = opt_prop payload ''role'';
          nodeId = opt_prop payload ''nodeId''
      in if JStr (node_id ctx) = nodeId then Inr [role] else Inr [])"

definition roleDelete :: "node_context \<Rightarrow> json \<Rightarrow> error + json list" where
  "roleDelete ctx payload =
     (if nullish payload then Inl TypeError else
      let role = opt_prop payload ''role'';
          nodeId = opt_prop payload ''nodeId''
      in if JStr (node_id ctx) = nodeId then Inr [role] else Inr [])"

definition roleUpdate :: "node_context \<Rightarrow> json \<Rightarrow> error + json list" where
  "roleUpdate ctx payload =
     (if nullish payload then Inl TypeError else
      let oldRole = opt_prop payload ''oldRole'';
          newRole = opt_prop payload ''newRole'';
          nodeId = opt_prop payload ''nodeId''
      in
      if JStr (node_id ctx) = nodeId then
        and_then (addPrefix oldRole ''old'') (\<lambda>olds.
        and_then (addPrefix newRole ''new'') (\<lambda>news.
          Inr [JObj (spread (spread [] olds) news)]))
      else Inr [])"

text \<open>
  The names under which the callback of \<^verbatim>\<open>ipc.connectTo\<close> attaches the listeners, in the
  order of the source, and the listener attached under each.
\<close>

definition event_names :: "string list" where
  "event_names =
     [''messageCreate'', ''guildMemberAdd'', ''guildMemberRemove'', ''guildMemberUpdate'',
      ''messageReactionAdd'', ''messageReactionRemove'', ''roleCreate'', ''roleDelete'',
      ''roleUpdate'']"

definition listener :: "string \<Rightarrow> node_context \<Rightarrow> json \<Rightarrow> error + json list" where
  "listener name =
     (if name = ''messageCreate'' then messageCreate
      else if name = ''guildMemberAdd'' then guildMemberAdd
      else if name = ''guildMemberRemove'' then guildMemberRemove
      else if name = ''guildMemberUpdate'' then guildMemberUpdate
      else if name = ''messageReactionAdd'' then messageReactionAdd
      else if name = ''messageReactionRemove'' then messageReactionRemove
      else if name = ''roleCreate'' then roleCreate
      else if name = ''roleDelete'' then roleDelete
      else if name = ''roleUpdate'' then roleUpdate
      else (\<lambda>ctx payload. Inr []))"

text \<open>
  The process-wide state an activation acts on: the singleton connection manager and
  the trace of what was done to node-ipc and to the helper module, oldest first.
  \<open>IpcOn name nodeId\<close> is \<^verbatim>\<open>ipc.of.bot.on(name, ...)\<close> called by the activation of node
  \<open>nodeId\<close>, whose \<^verbatim>\<open>this\<close> the listener closes over.
\<close>

record world =
  manager :: ConnectionManager
  trace :: "effect list"

text \<open>
  The callback passed to \<^verbatim>\<open>ipc.connectTo('bot', ...)\<close> (lines 90 to 242). It runs only
  after \<open>trigger\<close> has found a token in the credentials, so reading
  \<^verbatim>\<open>credentials.token\<close> does not throw there.
\<close>

definition registration :: "node_context \<Rightarrow> json" where
  "registration ctx =
     (let parameters =
            foldl (\<lambda>obj key. set_prop obj key (getNodeParameter ctx key (JStr []))) []
              (map fst (node_parameters ctx))
      in JObj [(''parameters'', JObj parameters),
               (''active'', JBool (workflow_active ctx)),
               (''credentials'', credentials ctx),
               (''token'', opt_prop (credentials ctx) ''token''),
               (''nodeId'', JStr (node_id ctx))])"

definition on_connected :: "node_context \<Rightarrow> world \<Rightarrow> world" where
  "on_connected ctx w =
     (let currentNodeId = node_id ctx;
          isNewRegistration = fst (connect (manager w) currentNodeId);
          w1 = w\<lparr>manager := snd (connect (manager w) currentNodeId)\<rparr>;
          w2 = w1\<lparr>trace := trace w1 @ [IpcEmit ''triggerNodeRegistered'' (registration ctx)]\<rparr>
      in
      if \<not> isNewRegistration then w2
      else w2\<lparr>trace := trace w2 @ map (\<lambda>name. IpcOn name currentNodeId) event_names\<rparr>)"

text \<open>
  \<open>trigger\<close>, one activation. node-ipc's \<^verbatim>\<open>connectTo\<close> calls its callback once, before it
  returns, whether the socket is new or already open. The result is \<^verbatim>\<open>{}\<close> or the object
  that carries \<^verbatim>\<open>closeFunction\<close>; the body of \<^verbatim>\<open>closeFunction\<close> runs at deactivation and
  is no part of the activation.
\<close>

datatype response = EmptyResponse | WithCloseFunction

text \<open>
  What the trace gained during one step, given the trace before and after it.
\<close>

definition added :: "effect list \<Rightarrow> effect list \<Rightarrow> effect list" where
  "added before after = drop (length before) after"

text \<open>
  The event names under which a trace attaches listeners, and the messages it sends
  upstream, both in order.
\<close>

fun attached :: "effect list \<Rightarrow> string list" where
  "attached [] = []"
| "attached (IpcOn name nodeId # es) = name # attached es"
| "attached (e # es) = attached es"

fun emitted :: "effect list \<Rightarrow> (string \<times> json) list" where
  "emitted [] = []"
| "emitted (IpcEmit name payload # es) = (name, payload) # emitted es"
| "emitted (e # es) = emitted es"

definition trigger :: "node_context \<Rightarrow> world \<Rightarrow> response \<times> world" where
  "trigger ctx w =
     (if \<not> truthy (opt_prop (credentials ctx) ''token'') then (EmptyResponse, w)
      else
        let w1 = w\<lparr>trace := trace w @ [HelperConnection (credentials ctx)]\<rparr>;
            w2 = on_connected ctx (w1\<lparr>trace := trace w1 @ [IpcConnectTo ''bot'']\<rparr>);
            w3 = w2\<lparr>trace := trace w2 @ [IpcOn ''disconnect'' (node_id ctx)]\<rparr>
        in (WithCloseFunction, w3))"

text \<open>
  The payloads on which the listener attached under a name reads no property of
  \<^verbatim>\<open>undefined\<close> or \<^verbatim>\<open>null\<close>: the parts it dereferences are there.
\<close>

definition well_formed :: "string \<Rightarrow> json \<Rightarrow> bool" where
  "well_formed name payload =
     (\<not> nullish payload \<and>
      (if name = ''messageCreate'' then
         \<not> nullish (opt_prop payload ''message'') \<and> \<not> nullish (opt_prop payload ''author'') \<and>
         (if truthy (opt_prop payload ''messageReference'')
          then \<not> nullish (opt_prop payload ''referenceAuthor'') else True)
       else if name = ''guildMemberUpdate'' then
         \<not> nullish (opt_prop payload ''oldMember'') \<and>
         \<not> nullish (opt_prop payload ''newMember'') \<and>
         \<not> nullish (opt_prop payload ''guild'')
       else if name = ''messageReactionAdd'' \<or> name = ''messageReactionRemove'' then
         \<not> nullish (opt_prop payload ''message'') \<and> \<not> nullish (opt_prop payload ''guild'')
       else if name = ''roleUpdate'' then
         \<not> nullish (opt_prop payload ''oldRole'') \<and> \<not> nullish (opt_prop payload ''newRole'')
       else True))"

text \<open>
  A field of the one record a listener emitted, if it emitted one object.
\<close>

fun field_of :: "error + json list \<Rightarrow> string \<Rightarrow> json option" where
  "field_of (Inr [JObj al]) k = map_of al k"
| "field_of r k = None"

text \<open>
  Fixtures for the concrete cases: two nodes, and payloads of the two events whose
  normalisation is examined.
\<close>

definition node_a :: node_context where
  "node_a = \<lparr>node_id = ''a'', node_parameters = [(''value'', JStr ''hello'')],
              getNodeParameter = (\<lambda>key fallback. if key = ''value'' then JStr ''hello'' else fallback),
              workflow_active = True,
              getCredentials = Resolved (JObj [(''token'', JStr ''t0k'')])\<rparr>"

definition node_b :: node_context where
  "node_b = node_a\<lparr>node_id := ''b''\<rparr>"

definition fresh :: world where
  "fresh = \<lparr>manager = initial, trace = []\<rparr>"

definition message_event :: "string \<Rightarrow> json \<Rightarrow> json \<Rightarrow> json \<Rightarrow> json" where
  "message_event target messageReference referenceAuthor attachments =
     JObj [(''message'', JObj [(''id'', JStr ''m1''), (''content'', JStr ''hi''),
                               (''channelId'', JStr ''c1''), (''createdTimestamp'', JNum 1700)]),
           (''author'', JObj [(''id'', JStr ''u1''), (''username'', JStr ''ann''),
                              (''bot'', JBool False), (''system'', JBool False)]),
           (''guild'', JObj [(''id'', JStr ''g1'')]),
           (''nodeId'', JStr target),
           (''messageReference'', messageReference),
           (''attachments'', attachments),
           (''referenceAuthor'', referenceAuthor)]"

definition member_update_event :: "string \<Rightarrow> json \<Rightarrow> json \<Rightarrow> json \<Rightarrow> json" where
  "member_update_event target oldMember newMember guild =
     JObj [(''oldMember'', oldMember), (''newMember'', newMember), (''guild'', guild),
           (''nodeId'', JStr target)]"

definition role_update_event :: "string \<Rightarrow> json \<Rightarrow> json \<Rightarrow> json" where
  "role_update_event target oldRole newRole =
     JObj [(''oldRole'', oldRole), (''newRole'', newRole), (''nodeId'', JStr target)]"

section \<open>Properties of the connection manager\<close>

lemma step_count:
  "connectionCount (snd (step (es, s) c)) = floored (connectionCount s) c" if "0 \<le> connectionCount s"
  using that by (cases c) (auto simp: connect_def disconnect_def Let_def set_has_def)

lemma run_snoc: "run (cs @ [c]) = step (run cs) c"
  by (simp add: run_def)

lemma step_inv:
  assumes "count_ok s" and "bound_active s"
  shows "count_ok (snd (step (es, s) c)) \<and> bound_active (snd (step (es, s) c))"
  using assms
  by (cases c)
     (auto simp: connect_def disconnect_def Let_def set_has_def set_add_def set_clear_def
        count_ok_def bound_active_def)

lemma run_inv: "count_ok (snd (run cs)) \<and> bound_active (snd (run cs))"
proof (induction cs rule: rev_induct)
  case Nil
  show ?case by (simp add: run_def initial_def count_ok_def bound_active_def)
next
  case (snoc c cs)
  obtain es s where r: "run cs = (es, s)" by (cases "run cs")
  with snoc have "count_ok s" and "bound_active s" by simp_all
  then show ?case unfolding run_snoc r by (rule step_inv)
qed

lemma run_floored: "connectionCount (snd (run cs)) = foldl floored 0 cs"
proof (induction cs rule: rev_induct)
  case Nil
  show ?case by (simp add: run_def initial_def)
next
  case (snoc c cs)
  obtain es s where r: "run cs = (es, s)" by (cases "run cs")
  have "0 \<le> connectionCount s" using run_inv [of cs] r by (simp add: count_ok_def)
  then have "connectionCount (snd (step (es, s) c)) = floored (connectionCount s) c"
    by (rule step_count)
  with snoc r show ?case by (simp add: run_snoc)
qed

lemma connects_snoc:
  "connects (cs @ [c]) = connects cs + (case c of Connect _ \<Rightarrow> 1 | Disconnect _ \<Rightarrow> 0)"
  by (cases c) (simp_all add: connects_def)

lemma disconnects_snoc:
  "disconnects (cs @ [c]) = disconnects cs + (case c of Connect _ \<Rightarrow> 0 | Disconnect _ \<Rightarrow> 1)"
  by (cases c) (simp_all add: disconnects_def)

lemma floored_lower: "max 0 (connects cs - disconnects cs) \<le> foldl floored 0 cs"
proof (induction cs rule: rev_induct)
  case Nil
  show ?case by (simp add: connects_def disconnects_def)
next
  case (snoc c cs)
  then show ?case by (cases c) (auto simp: connects_snoc disconnects_snoc)
qed

lemma floored_balanced:
  "\<forall>n\<le>length cs. disconnects (take n cs) \<le> connects (take n cs) \<Longrightarrow>
   foldl floored 0 cs = connects cs - disconnects cs"
proof (induction cs rule: rev_induct)
  case Nil
  show ?case by (simp add: connects_def disconnects_def)
next
  case (snoc c cs)
  have pre: "\<forall>n\<le>length cs. disconnects (take n cs) \<le> connects (take n cs)"
  proof (intro allI impI)
    fix n assume n: "n \<le> length cs"
    then have "n \<le> length (cs @ [c])" by simp
    with snoc.prems have "disconnects (take n (cs @ [c])) \<le> connects (take n (cs @ [c]))"
      by blast
    with n show "disconnects (take n cs) \<le> connects (take n cs)" by simp
  qed
  have ih: "foldl floored 0 cs = connects cs - disconnects cs"
    using snoc.IH pre by blast
  have whole: "disconnects (cs @ [c]) \<le> connects (cs @ [c])"
    using snoc.prems [rule_format, of "length (cs @ [c])"] by simp
  show ?case
    using ih whole by (cases c) (auto simp: connects_snoc disconnects_snoc)
qed

subsection \<open>connect\<close>

text \<open>
  C1. In every state of the registry and for every node id, \<open>connect\<close> raises the count
  by exactly one and returns true iff the id was not registered; in that case the id is
  added to the registered ids (at the end), and otherwise the registered ids are left as
  they were. From the fresh registry, connecting two different ids returns true both
  times, and connecting the same id twice returns true and then false.
\<close>

theorem connect_registers_once:
  "getConnectionCount (snd (connect s i)) = getConnectionCount s + 1
   \<and> (fst (connect s i) \<longleftrightarrow> \<not> isNodeRegistered s i)
   \<and> (\<not> isNodeRegistered s i \<longrightarrow>
        getRegisteredNodes (snd (connect s i)) = getRegisteredNodes s @ [i])
   \<and> (isNodeRegistered s i \<longrightarrow>
        getRegisteredNodes (snd (connect s i)) = getRegisteredNodes s)
   \<and> (a \<noteq> b \<longrightarrow> fst (connect initial a) \<and> fst (connect (snd (connect initial a)) b))
   \<and> fst (connect initial a) \<and> \<not> fst (connect (snd (connect initial a)) a)"
  by (simp add: connect_def Let_def set_has_def set_add_def isNodeRegistered_def
      getConnectionCount_def getRegisteredNodes_def initial_def)

theorem connect_registers_once_witness:
  "\<not> isNodeRegistered initial ''a''
   \<and> fst (connect initial ''a'')
   \<and> getRegisteredNodes (snd (connect initial ''a'')) = [''a'']
   \<and> isNodeRegistered (snd (connect initial ''a'')) ''a''
   \<and> \<not> fst (connect (snd (connect initial ''a'')) ''a'')
   \<and> getRegisteredNodes (snd (connect (snd (connect initial ''a'')) ''a'')) = [''a'']
   \<and> getConnectionCount (snd (connect (snd (connect initial ''a'')) ''a'')) = 2
   \<and> ''a'' \<noteq> ''b''
   \<and> fst (connect (snd (connect initial ''a'')) ''b'')"
  using connect_registers_once [of initial "''a''" "''a''" "''b''"]
    connect_registers_once [of "snd (connect initial ''a'')" "''a''" "''a''" "''b''"]
  by (simp add: connect_def Let_def set_has_def set_add_def isNodeRegistered_def
      getConnectionCount_def getRegisteredNodes_def initial_def)

subsection \<open>disconnect\<close>

text \<open>
  C2. \<open>disconnect\<close> changes nothing and has no effect when the count is 0 (the source
  tests \<^verbatim>\<open><= 0\<close>). Otherwise it lowers the count by one. While the new count is
  positive the registered ids are unchanged and nothing is torn down; when the new count
  is 0 the registered ids are emptied and \<^verbatim>\<open>ipc.disconnect('bot')\<close> is called once. The
  teardown happens exactly when the count was 1. After connect a, connect a,
  disconnect a the count is 1 and a is still registered.
\<close>

theorem disconnect_reference_counted:
  "(getConnectionCount s \<le> 0 \<longrightarrow> disconnect s i = ([], s))
   \<and> (0 < getConnectionCount s \<longrightarrow>
        getConnectionCount (snd (disconnect s i)) = getConnectionCount s - 1)
   \<and> (0 < getConnectionCount s \<and> 0 < getConnectionCount (snd (disconnect s i)) \<longrightarrow>
        getRegisteredNodes (snd (disconnect s i)) = getRegisteredNodes s
        \<and> fst (disconnect s i) = [])
   \<and> (0 < getConnectionCount s \<and> getConnectionCount (snd (disconnect s i)) = 0 \<longrightarrow>
        getRegisteredNodes (snd (disconnect s i)) = []
        \<and> fst (disconnect s i) = [IpcDisconnect ''bot''])
   \<and> (fst (disconnect s i) = [IpcDisconnect ''bot''] \<longleftrightarrow> getConnectionCount s = 1)
   \<and> (fst (disconnect s i) = [] \<longleftrightarrow> getConnectionCount s \<noteq> 1)
   \<and> (let s3 = snd (disconnect (snd (connect (snd (connect initial a)) a)) a)
      in getConnectionCount s3 = 1 \<and> a \<in> set (getRegisteredNodes s3))"
  by (simp add: connect_def disconnect_def Let_def set_has_def set_add_def set_clear_def
      getConnectionCount_def getRegisteredNodes_def initial_def)

theorem disconnect_reference_counted_witness:
  "getConnectionCount initial \<le> 0
   \<and> disconnect initial ''a'' = ([], initial)
   \<and> 0 < getConnectionCount (snd (connect (snd (connect initial ''a'')) ''a''))
   \<and> 0 < getConnectionCount
          (snd (disconnect (snd (connect (snd (connect initial ''a'')) ''a'')) ''a''))
   \<and> getRegisteredNodes
        (snd (disconnect (snd (connect (snd (connect initial ''a'')) ''a'')) ''a'')) = [''a'']
   \<and> fst (disconnect (snd (connect (snd (connect initial ''a'')) ''a'')) ''a'') = []
   \<and> 0 < getConnectionCount (snd (connect initial ''a''))
   \<and> getConnectionCount (snd (disconnect (snd (connect initial ''a'')) ''a'')) = 0
   \<and> getRegisteredNodes (snd (disconnect (snd (connect initial ''a'')) ''a'')) = []
   \<and> fst (disconnect (snd (connect initial ''a'')) ''a'') = [IpcDisconnect ''bot'']"
  using disconnect_reference_counted [of initial "''a''" "''a''"]
    disconnect_reference_counted [of "snd (connect (snd (connect initial ''a'')) ''a'')" "''a''" "''a''"]
    disconnect_reference_counted [of "snd (connect initial ''a'')" "''a''" "''a''"]
  by (simp add: connect_def disconnect_def Let_def set_has_def set_add_def set_clear_def
      getConnectionCount_def getRegisteredNodes_def initial_def)

subsection \<open>The count over a sequence of calls\<close>

text \<open>
  C4, as stated: after any sequence of calls from the fresh registry the count is the
  number of connects minus the number of disconnects, floored at 0. This fails: a
  disconnect on the fresh registry does nothing, so after disconnect, connect the count
  is 1 and not \<open>max 0 (1 - 1)\<close>.
\<close>

theorem count_floored_total_counterexample:
  "getConnectionCount (snd (run [Disconnect ''a'', Connect ''a'']))
   \<noteq> max 0 (connects [Disconnect ''a'', Connect ''a'']
             - disconnects [Disconnect ''a'', Connect ''a''])"
  by (simp add: run_def connect_def disconnect_def Let_def set_has_def set_add_def
      getConnectionCount_def initial_def connects_def disconnects_def)

text \<open>
  C4, amended. After any sequence of calls from the fresh registry the count is the
  running difference, floored at 0 after each call: one up for a connect, one down for
  a disconnect unless the count is 0. It is the number of connects minus the number of
  disconnects whenever no disconnect was called at count 0, that is, whenever every
  prefix of the sequence has at least as many connects as disconnects; in general it is
  at least that difference floored at 0. The registered ids play no part.
\<close>

theorem count_floored_running:
  "getConnectionCount (snd (run cs)) = foldl floored 0 cs
   \<and> ((\<forall>n\<le>length cs. disconnects (take n cs) \<le> connects (take n cs)) \<longrightarrow>
        getConnectionCount (snd (run cs)) = connects cs - disconnects cs)
   \<and> max 0 (connects cs - disconnects cs) \<le> getConnectionCount (snd (run cs))"
  using run_floored [of cs] floored_balanced [of cs] floored_lower [of cs]
  by (simp add: getConnectionCount_def)

theorem count_floored_running_witness:
  "getConnectionCount (snd (run [Connect ''a'', Connect ''b'', Disconnect ''a''])) = 1
   \<and> connects [Connect ''a'', Connect ''b'', Disconnect ''a'']
       - disconnects [Connect ''a'', Connect ''b'', Disconnect ''a''] = 1
   \<and> disconnects (take 3 [Connect ''a'', Connect ''b'', Disconnect ''a''])
       \<le> connects (take 3 [Connect ''a'', Connect ''b'', Disconnect ''a''])"
proof -
  let ?cs = "[Connect ''a'', Connect ''b'', Disconnect ''a'']"
  have h: "\<forall>n\<le>length ?cs. disconnects (take n ?cs) \<le> connects (take n ?cs)"
    by (simp add: le_Suc_eq connects_def disconnects_def)
  have d: "connects ?cs - disconnects ?cs = 1"
    by (simp add: connects_def disconnects_def)
  from count_floored_running [of ?cs] h d
  have "getConnectionCount (snd (run ?cs)) = 1" by simp
  with d show ?thesis by (simp add: connects_def disconnects_def)
qed

subsection \<open>Registered ids only while the count is positive\<close>

text \<open>
  C5. The invariant that the registered ids are non-empty only while the count is
  positive holds in the initial state and is kept by \<open>connect\<close> and by \<open>disconnect\<close>, for
  every node id, on the states of the data model (count at least 0, which both
  operations keep as well). So it holds after every sequence of calls.
\<close>

theorem bound_active_invariant:
  "count_ok initial \<and> bound_active initial
   \<and> (count_ok s \<and> bound_active s \<longrightarrow>
        count_ok (snd (connect s i)) \<and> bound_active (snd (connect s i)))
   \<and> (count_ok s \<and> bound_active s \<longrightarrow>
        count_ok (snd (disconnect s i)) \<and> bound_active (snd (disconnect s i)))
   \<and> count_ok (snd (run cs)) \<and> bound_active (snd (run cs))"
  using run_inv [of cs]
  by (simp add: connect_def disconnect_def Let_def set_has_def set_add_def set_clear_def
      count_ok_def bound_active_def initial_def)

theorem bound_active_invariant_witness:
  "count_ok (snd (connect initial ''a'')) \<and> bound_active (snd (connect initial ''a''))
   \<and> registeredNodes (snd (connect initial ''a'')) \<noteq> []
   \<and> 0 < connectionCount (snd (connect initial ''a''))
   \<and> count_ok (snd (connect (snd (connect initial ''a'')) ''b''))
   \<and> bound_active (snd (connect (snd (connect initial ''a'')) ''b''))
   \<and> count_ok (snd (disconnect (snd (connect initial ''a'')) ''b''))
   \<and> bound_active (snd (disconnect (snd (connect initial ''a'')) ''b''))
   \<and> registeredNodes (snd (disconnect (snd (connect initial ''a'')) ''b'')) = []"
  using bound_active_invariant [of initial "''a''" "[]"]
    bound_active_invariant [of "snd (connect initial ''a'')" "''b''" "[]"]
  by (simp add: connect_def disconnect_def Let_def set_has_def set_add_def set_clear_def
      count_ok_def bound_active_def initial_def)

section \<open>Properties of an activation\<close>

lemma attached_append: "attached (xs @ ys) = attached xs @ attached ys"
  by (induction xs rule: attached.induct) simp_all

lemma emitted_append: "emitted (xs @ ys) = emitted xs @ emitted ys"
  by (induction xs rule: emitted.induct) simp_all

lemma attached_IpcOn: "attached (map (\<lambda>name. IpcOn name nodeId) names) = names"
  by (induction names) simp_all

lemma emitted_IpcOn: "emitted (map (\<lambda>name. IpcOn name nodeId) names) = []"
  by (induction names) simp_all

lemma on_connected_trace:
  "trace (on_connected ctx w) =
     trace w @ [IpcEmit ''triggerNodeRegistered'' (registration ctx)] @
     (if fst (connect (manager w) (node_id ctx))
      then map (\<lambda>name. IpcOn name (node_id ctx)) event_names else [])"
  by (simp add: on_connected_def Let_def)

lemma on_connected_manager:
  "manager (on_connected ctx w) = snd (connect (manager w) (node_id ctx))"
  by (simp add: on_connected_def Let_def)

lemma trigger_trace:
  "truthy (opt_prop (credentials ctx) ''token'') \<Longrightarrow>
   trace (snd (trigger ctx w)) =
     trace w @ [HelperConnection (credentials ctx), IpcConnectTo ''bot'',
                IpcEmit ''triggerNodeRegistered'' (registration ctx)] @
     (if fst (connect (manager w) (node_id ctx))
      then map (\<lambda>name. IpcOn name (node_id ctx)) event_names else []) @
     [IpcOn ''disconnect'' (node_id ctx)]"
  by (simp add: trigger_def Let_def on_connected_trace)

lemma trigger_manager:
  "truthy (opt_prop (credentials ctx) ''token'') \<Longrightarrow>
   manager (snd (trigger ctx w)) = snd (connect (manager w) (node_id ctx))"
  by (simp add: trigger_def Let_def on_connected_manager)

subsection \<open>Activation without a token\<close>

text \<open>
  C10. When the credentials are absent or carry no token (the promise was rejected and
  the reason has no token, the credentials are \<^verbatim>\<open>undefined\<close> or \<^verbatim>\<open>null\<close>, or the token is
  \<^verbatim>\<open>undefined\<close>, \<^verbatim>\<open>null\<close> or the empty string), \<open>trigger\<close> returns the empty response and
  leaves the world as it was: nothing is added to the trace (no call of the helper's
  \<^verbatim>\<open>connection\<close>, no \<^verbatim>\<open>ipc.connectTo\<close>, no listener), and the connection manager is
  untouched. Nothing throws: the rejection is caught, and \<^verbatim>\<open>credentials?.token\<close> reads
  no property of \<^verbatim>\<open>undefined\<close>.
\<close>

theorem trigger_without_token:
  "(\<not> truthy (opt_prop (credentials ctx) ''token'') \<longrightarrow>
      trigger ctx w = (EmptyResponse, w)
      \<and> manager (snd (trigger ctx w)) = manager w
      \<and> added (trace w) (trace (snd (trigger ctx w))) = [])
   \<and> (nullish (credentials ctx) \<longrightarrow> trigger ctx w = (EmptyResponse, w))
   \<and> (opt_prop (credentials ctx) ''token'' = JUndefined \<longrightarrow> trigger ctx w = (EmptyResponse, w))
   \<and> (opt_prop (credentials ctx) ''token'' = JNull \<longrightarrow> trigger ctx w = (EmptyResponse, w))
   \<and> (opt_prop (credentials ctx) ''token'' = JStr [] \<longrightarrow> trigger ctx w = (EmptyResponse, w))"
  by (cases "credentials ctx") (auto simp: trigger_def added_def)

theorem trigger_without_token_witness:
  "nullish (credentials (node_a\<lparr>getCredentials := Resolved JUndefined\<rparr>))
   \<and> trigger (node_a\<lparr>getCredentials := Resolved JUndefined\<rparr>) fresh = (EmptyResponse, fresh)
   \<and> opt_prop (credentials (node_a\<lparr>getCredentials := Rejected (JObj [(''message'', JStr ''denied'')])\<rparr>))
        ''token'' = JUndefined
   \<and> trigger (node_a\<lparr>getCredentials := Rejected (JObj [(''message'', JStr ''denied'')])\<rparr>)
        (snd (trigger node_a fresh))
      = (EmptyResponse, snd (trigger node_a fresh))
   \<and> opt_prop (credentials (node_a\<lparr>getCredentials := Resolved (JObj [(''token'', JStr [])])\<rparr>))
        ''token'' = JStr []
   \<and> trigger (node_a\<lparr>getCredentials := Resolved (JObj [(''token'', JStr [])])\<rparr>) fresh
      = (EmptyResponse, fresh)
   \<and> opt_prop (credentials (node_a\<lparr>getCredentials := Resolved (JObj [(''token'', JNull)])\<rparr>))
        ''token'' = JNull
   \<and> trigger (node_a\<lparr>getCredentials := Resolved (JObj [(''token'', JNull)])\<rparr>) fresh
      = (EmptyResponse, fresh)"
  using trigger_without_token [of "node_a\<lparr>getCredentials := Resolved JUndefined\<rparr>" fresh]
    trigger_without_token
      [of "node_a\<lparr>getCredentials := Rejected (JObj [(''message'', JStr ''denied'')])\<rparr>"
          "snd (trigger node_a fresh)"]
    trigger_without_token [of "node_a\<lparr>getCredentials := Resolved (JObj [(''token'', JStr [])])\<rparr>" fresh]
    trigger_without_token [of "node_a\<lparr>getCredentials := Resolved (JObj [(''token'', JNull)])\<rparr>" fresh]
  by (simp add: credentials_def node_a_def own_prop_def)

subsection \<open>Registration and listener attachment\<close>

text \<open>
  C3, as stated: when \<open>connect\<close> returns false, no handler attachment of any kind occurs
  in that activation, and the registration is sent on every activation. This fails:
  \<open>trigger\<close> calls \<^verbatim>\<open>ipc.of.bot.on('disconnect', ...)\<close> after \<^verbatim>\<open>ipc.connectTo\<close> on every
  activation that has a token, so the second activation of node a, for which \<open>connect\<close>
  returns false, attaches one more listener. And an activation without a token returns
  before anything is sent.
\<close>

theorem repeat_activation_attaches_counterexample:
  "\<not> fst (connect (manager (snd (trigger node_a fresh))) (node_id node_a))
   \<and> attached (added (trace (snd (trigger node_a fresh)))
                 (trace (snd (trigger node_a (snd (trigger node_a fresh))))))
     = [''disconnect'']
   \<and> emitted (added (trace fresh)
                (trace (snd (trigger (node_a\<lparr>getCredentials := Resolved JUndefined\<rparr>) fresh))))
     = []"
  by code_simp

text \<open>
  C3, amended. On every activation that has a token, the registration message is sent
  upstream exactly once, whatever \<open>connect\<close> returned, and the nine event listeners are
  attached iff \<open>connect\<close> returned true: the callback of \<^verbatim>\<open>ipc.connectTo\<close> attaches all
  nine, in the order of the source, when \<open>connect\<close> returned true and attaches nothing
  when it returned false. Over the whole activation the only other listener is the one
  for \<^verbatim>\<open>disconnect\<close>. The connection manager is changed by that one \<open>connect\<close> only.
\<close>

theorem registration_always_listeners_once:
  "truthy (opt_prop (credentials ctx) ''token'') \<longrightarrow>
     emitted (added (trace w) (trace (snd (trigger ctx w))))
       = [(''triggerNodeRegistered'', registration ctx)]
     \<and> emitted (added (trace w) (trace (on_connected ctx w)))
       = [(''triggerNodeRegistered'', registration ctx)]
     \<and> (fst (connect (manager w) (node_id ctx)) \<longrightarrow>
          attached (added (trace w) (trace (on_connected ctx w))) = event_names
          \<and> attached (added (trace w) (trace (snd (trigger ctx w))))
            = event_names @ [''disconnect''])
     \<and> (\<not> fst (connect (manager w) (node_id ctx)) \<longrightarrow>
          attached (added (trace w) (trace (on_connected ctx w))) = []
          \<and> attached (added (trace w) (trace (snd (trigger ctx w)))) = [''disconnect''])
     \<and> manager (snd (trigger ctx w)) = snd (connect (manager w) (node_id ctx))"
  by (simp add: trigger_trace trigger_manager on_connected_trace added_def
      attached_append emitted_append attached_IpcOn emitted_IpcOn)

theorem registration_always_listeners_once_witness:
  "truthy (opt_prop (credentials node_a) ''token'')
   \<and> fst (connect (manager fresh) (node_id node_a))
   \<and> attached (added (trace fresh) (trace (on_connected node_a fresh))) = event_names
   \<and> emitted (added (trace fresh) (trace (snd (trigger node_a fresh))))
       = [(''triggerNodeRegistered'', registration node_a)]
   \<and> \<not> fst (connect (manager (snd (trigger node_a fresh))) (node_id node_a))
   \<and> attached (added (trace (snd (trigger node_a fresh)))
                 (trace (on_connected node_a (snd (trigger node_a fresh))))) = []
   \<and> emitted (added (trace (snd (trigger node_a fresh)))
                (trace (snd (trigger node_a (snd (trigger node_a fresh))))))
       = [(''triggerNodeRegistered'', registration node_a)]"
proof -
  have t: "truthy (opt_prop (credentials node_a) ''token'')"
    by (simp add: credentials_def node_a_def own_prop_def)
  have n1: "fst (connect (manager fresh) (node_id node_a))"
    by (simp add: fresh_def initial_def connect_def Let_def set_has_def)
  have n2: "\<not> fst (connect (manager (snd (trigger node_a fresh))) (node_id node_a))"
    by (simp add: trigger_manager [OF t] fresh_def initial_def connect_def Let_def
        set_has_def set_add_def)
  from registration_always_listeners_once [of node_a fresh]
    registration_always_listeners_once [of node_a "snd (trigger node_a fresh)"] t n1 n2
  show ?thesis by simp
qed

section \<open>Properties of the listeners\<close>

lemma and_then_Inr [simp]: "and_then (Inr v) f = f v"
  by (simp add: and_then_def)

lemma and_then_Inl [simp]: "and_then (Inl e) f = Inl e"
  by (simp add: and_then_def)

lemma and_then_InrE:
  assumes "and_then r f = Inr xs"
  obtains v where "r = Inr v" and "f v = Inr xs"
  using assms by (cases r) simp_all

lemma get_prop_ok [simp]: "\<not> nullish v \<Longrightarrow> get_prop v k = Inr (opt_prop v k)"
  by (simp add: get_prop_def)

lemma truthy_not_nullish: "truthy v \<Longrightarrow> \<not> nullish v"
  by (cases v) simp_all

lemma addPrefix_ok:
  "\<not> nullish v \<Longrightarrow>
   addPrefix v p = Inr (JObj (Object_fromEntries (map (\<lambda>(key, val). (prefixed p key, val)) (own_entries v))))"
  by (simp add: addPrefix_def Object_entries_def)

lemma messageCreate_other:
  "\<not> nullish payload \<Longrightarrow> opt_prop payload ''nodeId'' \<noteq> JStr (node_id ctx) \<Longrightarrow>
   messageCreate ctx payload = Inr []"
  by (auto simp: messageCreate_def Let_def)

lemma messageCreate_own:
  "well_formed ''messageCreate'' payload \<Longrightarrow> opt_prop payload ''nodeId'' = JStr (node_id ctx) \<Longrightarrow>
   \<exists>r. messageCreate ctx payload = Inr [r]"
  by (simp add: messageCreate_def Let_def well_formed_def truthy_not_nullish)

lemmas listener_defs =
  messageCreate_def guildMemberAdd_def guildMemberRemove_def guildMemberUpdate_def
  messageReactionAdd_def messageReactionRemove_def messageReaction_def
  roleCreate_def roleDelete_def roleUpdate_def

lemma listener_other:
  "name \<in> set event_names \<Longrightarrow> \<not> nullish payload \<Longrightarrow>
   opt_prop payload ''nodeId'' \<noteq> JStr (node_id ctx) \<Longrightarrow>
   listener name ctx payload = Inr []"
  by (auto simp: event_names_def listener_def listener_defs Let_def)

lemma listener_own:
  "name \<in> set event_names \<Longrightarrow> well_formed name payload \<Longrightarrow>
   opt_prop payload ''nodeId'' = JStr (node_id ctx) \<Longrightarrow>
   \<exists>r. listener name ctx payload = Inr [r]"
  by (auto simp: event_names_def listener_def listener_defs Let_def well_formed_def
      truthy_not_nullish addPrefix_ok)

lemma listener_shape:
  "name \<in> set event_names \<Longrightarrow> listener name ctx payload = Inr (r # rs) \<Longrightarrow>
   rs = [] \<and> opt_prop payload ''nodeId'' = JStr (node_id ctx)"
  unfolding event_names_def listener_def listener_defs Let_def
  by (auto split: if_splits elim!: and_then_InrE)

subsection \<open>Routing by node id\<close>

text \<open>
  C6, as stated: for every inbound event that carries a node id, a listener delivers a
  record iff its node's own id equals that id. This fails from right to left: a listener
  dereferences parts of the payload after the test of the id, and throws when one is
  missing. A \<^verbatim>\<open>messageCreate\<close> for node a with a message reference and no
  \<^verbatim>\<open>referenceAuthor\<close> throws at \<^verbatim>\<open>referenceAuthor.id\<close>, and a \<^verbatim>\<open>messageReactionAdd\<close> for
  node a without a guild throws at \<^verbatim>\<open>guild.id\<close>; neither delivers a record to node a.
\<close>

theorem matching_event_not_delivered_counterexample:
  "opt_prop (message_event ''a'' (JObj [(''id'', JStr ''m0'')]) JUndefined JUndefined) ''nodeId''
     = JStr (node_id node_a)
   \<and> listener ''messageCreate'' node_a
       (message_event ''a'' (JObj [(''id'', JStr ''m0'')]) JUndefined JUndefined)
     = Inl TypeError
   \<and> opt_prop
       (JObj [(''messageReaction'', JObj [(''count'', JNum 1)]),
              (''message'', JObj [(''channelId'', JStr ''c1'')]),
              (''user'', JObj [(''id'', JStr ''u1'')]),
              (''nodeId'', JStr ''a'')]) ''nodeId''
     = JStr (node_id node_a)
   \<and> listener ''messageReactionAdd'' node_a
       (JObj [(''messageReaction'', JObj [(''count'', JNum 1)]),
              (''message'', JObj [(''channelId'', JStr ''c1'')]),
              (''user'', JObj [(''id'', JStr ''u1'')]),
              (''nodeId'', JStr ''a'')])
     = Inl TypeError"
  by code_simp

text \<open>
  C6, amended. Each of the nine listeners, attached by the activation of some node, hands
  a record to that node's \<^verbatim>\<open>emit\<close> only if the node's own id equals the \<^verbatim>\<open>nodeId\<close> of the
  event: on every payload that carries another id it emits nothing, and whenever it
  emits at all, it emits one record and the ids are equal. On every payload whose
  dereferenced parts are there (the message and the author, and the reference author
  when there is a reference; the old, new and guild objects of an update; the message and
  the guild of a reaction) it emits exactly one record iff the ids are equal. So a
  \<^verbatim>\<open>messageCreate\<close> for node a whose parts are there is delivered by the listener of a and
  gives nothing at the listener of any other node.
\<close>

theorem listener_delivers_iff_own_id:
  "(name \<in> set event_names \<longrightarrow>
     (\<not> nullish payload \<and> opt_prop payload ''nodeId'' \<noteq> JStr (node_id ctx) \<longrightarrow>
        listener name ctx payload = Inr [])
     \<and> (well_formed name payload \<longrightarrow>
          ((\<exists>r. listener name ctx payload = Inr [r])
           \<longleftrightarrow> opt_prop payload ''nodeId'' = JStr (node_id ctx)))
     \<and> (\<forall>r rs. listener name ctx payload = Inr (r # rs) \<longrightarrow>
          rs = [] \<and> opt_prop payload ''nodeId'' = JStr (node_id ctx)))
   \<and> (well_formed ''messageCreate'' payload \<and> opt_prop payload ''nodeId'' = JStr a
          \<and> node_id ctx_a = a \<and> node_id ctx_b \<noteq> a \<longrightarrow>
          (\<exists>r. messageCreate ctx_a payload = Inr [r]) \<and> messageCreate ctx_b payload = Inr [])"
proof (intro impI conjI allI)
  assume n: "name \<in> set event_names"
  show "listener name ctx payload = Inr []"
    if "\<not> nullish payload \<and> opt_prop payload ''nodeId'' \<noteq> JStr (node_id ctx)"
    using that n by (simp add: listener_other)
  show "(\<exists>r. listener name ctx payload = Inr [r])
        \<longleftrightarrow> opt_prop payload ''nodeId'' = JStr (node_id ctx)"
    if wf: "well_formed name payload"
  proof
    assume "\<exists>r. listener name ctx payload = Inr [r]"
    then show "opt_prop payload ''nodeId'' = JStr (node_id ctx)"
      using listener_shape [OF n] by blast
  next
    assume "opt_prop payload ''nodeId'' = JStr (node_id ctx)"
    then show "\<exists>r. listener name ctx payload = Inr [r]"
      using listener_own [OF n wf] by blast
  qed
  show "rs = []" and "opt_prop payload ''nodeId'' = JStr (node_id ctx)"
    if "listener name ctx payload = Inr (r # rs)" for r rs
    using listener_shape [OF n that] by simp_all
next
  assume h: "well_formed ''messageCreate'' payload \<and> opt_prop payload ''nodeId'' = JStr a
          \<and> node_id ctx_a = a \<and> node_id ctx_b \<noteq> a"
  then show "\<exists>r. messageCreate ctx_a payload = Inr [r]"
    by (simp add: messageCreate_own)
  from h have "\<not> nullish payload" by (simp add: well_formed_def)
  with h show "messageCreate ctx_b payload = Inr []"
    by (intro messageCreate_other) auto
qed

theorem listener_delivers_iff_own_id_witness:
  "''messageCreate'' \<in> set event_names
   \<and> well_formed ''messageCreate'' (message_event ''a'' JNull JNull JNull)
   \<and> opt_prop (message_event ''a'' JNull JNull JNull) ''nodeId'' = JStr (node_id node_a)
   \<and> (\<exists>r. listener ''messageCreate'' node_a (message_event ''a'' JNull JNull JNull) = Inr [r])
   \<and> opt_prop (message_event ''a'' JNull JNull JNull) ''nodeId'' \<noteq> JStr (node_id node_b)
   \<and> listener ''messageCreate'' node_b (message_event ''a'' JNull JNull JNull) = Inr []"
proof -
  let ?ev = "message_event ''a'' JNull JNull JNull"
  have n: "''messageCreate'' \<in> set event_names" by (simp add: event_names_def)
  have wf: "well_formed ''messageCreate'' ?ev"
    by (simp add: well_formed_def message_event_def own_prop_def)
  have a: "opt_prop ?ev ''nodeId'' = JStr (node_id node_a)"
    by (simp add: message_event_def own_prop_def node_a_def)
  have b: "opt_prop ?ev ''nodeId'' \<noteq> JStr (node_id node_b)"
    by (simp add: message_event_def own_prop_def node_a_def node_b_def)
  have nn: "\<not> nullish ?ev" by (simp add: message_event_def)
  from listener_delivers_iff_own_id [of "''messageCreate''" ?ev node_a] n wf a
  have 1: "\<exists>r. listener ''messageCreate'' node_a ?ev = Inr [r]" by blast
  from listener_delivers_iff_own_id [of "''messageCreate''" ?ev node_b] n nn b
  have 2: "listener ''messageCreate'' node_b ?ev = Inr []" by blast
  from n wf a b 1 2 show ?thesis by blast
qed

subsection \<open>The merged record of a member update\<close>

lemma map_of_fold_set_prop:
  "map_of (foldl (\<lambda>obj (k, v). set_prop obj k v) acc es) = map_of acc ++ map_of (rev es)"
proof (induction es arbitrary: acc)
  case Nil
  show ?case by simp
next
  case (Cons e es)
  obtain k v where e: "e = (k, v)" by (cases e)
  have "map_of (foldl (\<lambda>obj (k, v). set_prop obj k v) acc (e # es))
        = map_of (set_prop acc k v) ++ map_of (rev es)"
    using Cons.IH [of "set_prop acc k v"] by (simp add: e)
  also have "\<dots> = map_of acc ++ map_of (rev (e # es))"
    by (simp add: e set_prop_def update_conv' map_add_upd_left fun_eq_iff map_add_def
        split: option.splits)
  finally show ?case .
qed

lemma distinct_fold_set_prop:
  "distinct (map fst acc) \<Longrightarrow>
   distinct (map fst (foldl (\<lambda>obj (k, v). set_prop obj k v) acc es))"
proof (induction es arbitrary: acc)
  case Nil
  then show ?case by simp
next
  case (Cons e es)
  obtain k v where e: "e = (k, v)" by (cases e)
  have "distinct (map fst (set_prop acc k v))"
    using Cons.prems by (simp add: set_prop_def distinct_update)
  from Cons.IH [OF this] show ?case by (simp add: e)
qed

lemma map_of_rev_distinct: "distinct (map fst al) \<Longrightarrow> map_of (rev al) = map_of al"
  by (rule ext) (metis distinct_rev map_of_inject_set rev_map set_rev map_of_eq_None_iff option.exhaust map_of_SomeD map_of_is_SomeI)

lemma map_of_spread:
  "map_of (spread acc v) = map_of acc ++ map_of (rev (own_entries v))"
  by (simp add: spread_def map_of_fold_set_prop)

lemma distinct_spread: "distinct (map fst acc) \<Longrightarrow> distinct (map fst (spread acc v))"
  by (simp add: spread_def distinct_fold_set_prop)

lemma map_of_fromEntries: "map_of (Object_fromEntries es) = map_of (rev es)"
  by (simp add: Object_fromEntries_def map_of_fold_set_prop)

lemma distinct_fromEntries: "distinct (map fst (Object_fromEntries es))"
  by (simp add: Object_fromEntries_def distinct_fold_set_prop)

lemma map_of_spread_prefixed:
  "map_of (spread acc (JObj (Object_fromEntries es))) = map_of acc ++ map_of (rev es)"
  by (simp add: map_of_spread map_of_rev_distinct distinct_fromEntries map_of_fromEntries)

lemma guildMemberUpdate_merged:
  assumes "well_formed ''guildMemberUpdate'' payload"
    and "opt_prop payload ''nodeId'' = JStr (node_id ctx)"
  shows "\<exists>merged. guildMemberUpdate ctx payload = Inr [JObj merged]
           \<and> distinct (map fst merged)
           \<and> map_of merged =
               map_of (rev (map (\<lambda>(key, val). (prefixed ''old'' key, val))
                              (own_entries (opt_prop payload ''oldMember''))))
               ++ map_of (rev (map (\<lambda>(key, val). (prefixed ''new'' key, val))
                              (own_entries (opt_prop payload ''newMember''))))
               ++ map_of (rev (map (\<lambda>(key, val). (prefixed ''guild'' key, val))
                              (own_entries (opt_prop payload ''guild''))))"
  using assms
  by (simp add: guildMemberUpdate_def Let_def well_formed_def addPrefix_ok
      map_of_spread_prefixed distinct_spread)

lemma renamed_Some:
  "map_of (rev (map (\<lambda>(key, val). (prefixed p key, val)) es)) K = Some v \<Longrightarrow>
   \<exists>k. K = prefixed p k \<and> (k, v) \<in> set es"
  by (auto dest!: map_of_SomeD)

lemma renamed_None:
  "\<forall>k. K \<noteq> prefixed p k \<Longrightarrow>
   map_of (rev (map (\<lambda>(key, val). (prefixed p key, val)) es)) K = None"
  by (auto simp: map_of_eq_None_iff image_iff)

lemma renamed_unique:
  assumes "(k, v) \<in> set es"
    and "\<And>k' v'. (k', v') \<in> set es \<Longrightarrow> prefixed p k' = prefixed p k \<Longrightarrow> v' = v"
  shows "map_of (rev (map (\<lambda>(key, val). (prefixed p key, val)) es)) (prefixed p k) = Some v"
proof -
  let ?m = "map_of (rev (map (\<lambda>(key, val). (prefixed p key, val)) es))"
  have "prefixed p k \<in> fst ` set (rev (map (\<lambda>(key, val). (prefixed p key, val)) es))"
    using assms(1) by (force simp: image_iff)
  then obtain v' where v': "?m (prefixed p k) = Some v'"
    by (metis map_of_eq_None_iff option.exhaust)
  from renamed_Some [OF v'] obtain k' where "prefixed p k = prefixed p k'" "(k', v') \<in> set es"
    by blast
  with assms(2) have "v' = v" by metis
  with v' show ?thesis by simp
qed

lemma prefixed_Cons: "prefixed p (c # cs) = p @ upper_char c # cs"
  by (simp add: prefixed_def charAt_def slice_def toUpperCase_def)

lemma prefixed_Nil: "prefixed p [] = p"
  by (simp add: prefixed_def charAt_def slice_def toUpperCase_def)

lemma prefixes_apart:
  "prefixed ''old'' k \<noteq> prefixed ''new'' k'"
  "prefixed ''old'' k \<noteq> prefixed ''guild'' k'"
  "prefixed ''new'' k \<noteq> prefixed ''guild'' k'"
  "prefixed ''new'' k \<noteq> prefixed ''old'' k'"
  "prefixed ''guild'' k \<noteq> prefixed ''old'' k'"
  "prefixed ''guild'' k \<noteq> prefixed ''new'' k'"
  by (simp_all add: prefixed_def)

lemma dom_renamed:
  "dom (map_of (rev (map (\<lambda>(key, val). (prefixed p key, val)) es))) = prefixed p ` fst ` set es"
  by (force simp: dom_map_of_conv_image_fst image_iff)

lemma guildMemberUpdate_field:
  assumes "well_formed ''guildMemberUpdate'' payload"
    and "opt_prop payload ''nodeId'' = JStr (node_id ctx)"
  shows "field_of (guildMemberUpdate ctx payload) K =
           (map_of (rev (map (\<lambda>(key, val). (prefixed ''old'' key, val))
                          (own_entries (opt_prop payload ''oldMember''))))
            ++ map_of (rev (map (\<lambda>(key, val). (prefixed ''new'' key, val))
                          (own_entries (opt_prop payload ''newMember''))))
            ++ map_of (rev (map (\<lambda>(key, val). (prefixed ''guild'' key, val))
                          (own_entries (opt_prop payload ''guild''))))) K"
proof -
  from guildMemberUpdate_merged [OF assms] obtain merged where
    "guildMemberUpdate ctx payload = Inr [JObj merged]"
    "map_of merged =
       map_of (rev (map (\<lambda>(key, val). (prefixed ''old'' key, val))
                      (own_entries (opt_prop payload ''oldMember''))))
       ++ map_of (rev (map (\<lambda>(key, val). (prefixed ''new'' key, val))
                      (own_entries (opt_prop payload ''newMember''))))
       ++ map_of (rev (map (\<lambda>(key, val). (prefixed ''guild'' key, val))
                      (own_entries (opt_prop payload ''guild''))))"
    by blast
  then show ?thesis by simp
qed

lemma guildMemberUpdate_keys:
  assumes "well_formed ''guildMemberUpdate'' payload"
    and "opt_prop payload ''nodeId'' = JStr (node_id ctx)"
  shows "\<exists>merged. guildMemberUpdate ctx payload = Inr [JObj merged]
           \<and> distinct (map fst merged)
           \<and> fst ` set merged =
               prefixed ''old'' ` fst ` set (own_entries (opt_prop payload ''oldMember''))
               \<union> prefixed ''new'' ` fst ` set (own_entries (opt_prop payload ''newMember''))
               \<union> prefixed ''guild'' ` fst ` set (own_entries (opt_prop payload ''guild''))"
proof -
  from guildMemberUpdate_merged [OF assms] obtain merged where
    r: "guildMemberUpdate ctx payload = Inr [JObj merged]" and d: "distinct (map fst merged)"
    and m: "map_of merged =
       map_of (rev (map (\<lambda>(key, val). (prefixed ''old'' key, val))
                      (own_entries (opt_prop payload ''oldMember''))))
       ++ map_of (rev (map (\<lambda>(key, val). (prefixed ''new'' key, val))
                      (own_entries (opt_prop payload ''newMember''))))
       ++ map_of (rev (map (\<lambda>(key, val). (prefixed ''guild'' key, val))
                      (own_entries (opt_prop payload ''guild''))))"
    by blast
  have "fst ` set merged = dom (map_of merged)"
    by (simp add: dom_map_of_conv_image_fst)
  also have "\<dots> =
      prefixed ''old'' ` fst ` set (own_entries (opt_prop payload ''oldMember''))
      \<union> prefixed ''new'' ` fst ` set (own_entries (opt_prop payload ''newMember''))
      \<union> prefixed ''guild'' ` fst ` set (own_entries (opt_prop payload ''guild''))"
    unfolding m dom_map_add dom_renamed by blast
  finally show ?thesis using r d by blast
qed

lemma merged_source:
  assumes "(map_of (rev (map (\<lambda>(key, val). (prefixed ''old'' key, val)) olds))
            ++ map_of (rev (map (\<lambda>(key, val). (prefixed ''new'' key, val)) news))
            ++ map_of (rev (map (\<lambda>(key, val). (prefixed ''guild'' key, val)) guilds))) K = Some v"
  shows "(\<exists>k. K = prefixed ''old'' k \<and> (k, v) \<in> set olds)
         \<or> (\<exists>k. K = prefixed ''new'' k \<and> (k, v) \<in> set news)
         \<or> (\<exists>k. K = prefixed ''guild'' k \<and> (k, v) \<in> set guilds)"
  using assms unfolding map_add_Some_iff by (blast dest: renamed_Some)

lemma merged_old:
  assumes "(k, v) \<in> set olds"
    and "\<And>k' v'. (k', v') \<in> set olds \<Longrightarrow> prefixed ''old'' k' = prefixed ''old'' k \<Longrightarrow> v' = v"
  shows "(map_of (rev (map (\<lambda>(key, val). (prefixed ''old'' key, val)) olds))
          ++ map_of (rev (map (\<lambda>(key, val). (prefixed ''new'' key, val)) news))
          ++ map_of (rev (map (\<lambda>(key, val). (prefixed ''guild'' key, val)) guilds)))
           (prefixed ''old'' k) = Some v"
  using renamed_unique [of k v olds "''old''", OF assms]
  by (simp add: map_add_def renamed_None prefixes_apart)

lemma merged_new:
  assumes "(k, v) \<in> set news"
    and "\<And>k' v'. (k', v') \<in> set news \<Longrightarrow> prefixed ''new'' k' = prefixed ''new'' k \<Longrightarrow> v' = v"
  shows "(map_of (rev (map (\<lambda>(key, val). (prefixed ''old'' key, val)) olds))
          ++ map_of (rev (map (\<lambda>(key, val). (prefixed ''new'' key, val)) news))
          ++ map_of (rev (map (\<lambda>(key, val). (prefixed ''guild'' key, val)) guilds)))
           (prefixed ''new'' k) = Some v"
  using renamed_unique [of k v news "''new''", OF assms]
  by (simp add: map_add_def renamed_None prefixes_apart)

lemma merged_guild:
  assumes "(k, v) \<in> set guilds"
    and "\<And>k' v'. (k', v') \<in> set guilds \<Longrightarrow> prefixed ''guild'' k' = prefixed ''guild'' k \<Longrightarrow> v' = v"
  shows "(map_of (rev (map (\<lambda>(key, val). (prefixed ''old'' key, val)) olds))
          ++ map_of (rev (map (\<lambda>(key, val). (prefixed ''new'' key, val)) news))
          ++ map_of (rev (map (\<lambda>(key, val). (prefixed ''guild'' key, val)) guilds)))
           (prefixed ''guild'' k) = Some v"
  using renamed_unique [of k v guilds "''guild''", OF assms]
  by (simp add: map_add_def)

lemma member_update_example:
  "guildMemberUpdate node_a
        (member_update_event ''a'' (JObj [(''nickname'', JStr ''x'')])
           (JObj [(''nickname'', JStr ''y'')]) (JObj [(''name'', JStr ''G'')]))
      = Inr [JObj [(''oldNickname'', JStr ''x''), (''newNickname'', JStr ''y''),
                   (''guildName'', JStr ''G'')]]"
  by code_simp

text \<open>
  C7. For a member update addressed to the node, whose three parts are there, the
  listener emits one record. Its keys are exactly the keys of the old object behind
  \<^verbatim>\<open>old\<close>, those of the new object behind \<^verbatim>\<open>new\<close> and those of the guild object behind
  \<^verbatim>\<open>guild\<close>, each with its first letter in upper case. Every field of the record is a
  field of one of the three objects under its new name, and a field of an object is in
  the record under its new name, with its value, unless another field of the same object
  takes the same new name with another value. For old \<^verbatim>\<open>{nickname: "x"}\<close>, new
  \<^verbatim>\<open>{nickname: "y"}\<close> and guild \<^verbatim>\<open>{name: "G"}\<close> the record is exactly
  \<^verbatim>\<open>{oldNickname: "x", newNickname: "y", guildName: "G"}\<close>.
\<close>

theorem member_update_merges_prefixed:
  "(well_formed ''guildMemberUpdate'' payload \<and> opt_prop payload ''nodeId'' = JStr (node_id ctx) \<longrightarrow>
     (let olds = own_entries (opt_prop payload ''oldMember'');
          news = own_entries (opt_prop payload ''newMember'');
          guilds = own_entries (opt_prop payload ''guild'');
          out = field_of (guildMemberUpdate ctx payload)
      in (\<exists>merged. guildMemberUpdate ctx payload = Inr [JObj merged]
            \<and> distinct (map fst merged)
            \<and> fst ` set merged =
                prefixed ''old'' ` fst ` set olds \<union> prefixed ''new'' ` fst ` set news
                \<union> prefixed ''guild'' ` fst ` set guilds)
         \<and> (\<forall>K v. out K = Some v \<longrightarrow>
               (\<exists>k. K = prefixed ''old'' k \<and> (k, v) \<in> set olds)
               \<or> (\<exists>k. K = prefixed ''new'' k \<and> (k, v) \<in> set news)
               \<or> (\<exists>k. K = prefixed ''guild'' k \<and> (k, v) \<in> set guilds))
         \<and> (\<forall>k v. (k, v) \<in> set olds
                 \<and> (\<forall>k' v'. (k', v') \<in> set olds \<and> prefixed ''old'' k' = prefixed ''old'' k \<longrightarrow> v' = v)
               \<longrightarrow> out (prefixed ''old'' k) = Some v)
         \<and> (\<forall>k v. (k, v) \<in> set news
                 \<and> (\<forall>k' v'. (k', v') \<in> set news \<and> prefixed ''new'' k' = prefixed ''new'' k \<longrightarrow> v' = v)
               \<longrightarrow> out (prefixed ''new'' k) = Some v)
         \<and> (\<forall>k v. (k, v) \<in> set guilds
                 \<and> (\<forall>k' v'. (k', v') \<in> set guilds \<and> prefixed ''guild'' k' = prefixed ''guild'' k \<longrightarrow> v' = v)
               \<longrightarrow> out (prefixed ''guild'' k) = Some v)))
   \<and> prefixed p (c # cs) = p @ upper_char c # cs
   \<and> prefixed p [] = p
   \<and> guildMemberUpdate node_a
        (member_update_event ''a'' (JObj [(''nickname'', JStr ''x'')])
           (JObj [(''nickname'', JStr ''y'')]) (JObj [(''name'', JStr ''G'')]))
      = Inr [JObj [(''oldNickname'', JStr ''x''), (''newNickname'', JStr ''y''),
                   (''guildName'', JStr ''G'')]]"
  apply (intro conjI impI)
  subgoal
    apply (elim conjE)
    apply (simp only: Let_def guildMemberUpdate_field)
    apply (intro conjI allI impI)
    subgoal by (rule guildMemberUpdate_keys)
    subgoal by (rule merged_source)
    subgoal by (rule merged_old) blast+
    subgoal by (rule merged_new) blast+
    subgoal by (rule merged_guild) blast+
    done
  subgoal by (rule prefixed_Cons)
  subgoal by (rule prefixed_Nil)
  subgoal by (rule member_update_example)
  done

theorem member_update_merges_prefixed_witness:
  "well_formed ''guildMemberUpdate''
     (member_update_event ''a'' (JObj [(''nickname'', JStr ''x'')])
        (JObj [(''nickname'', JStr ''y'')]) (JObj [(''name'', JStr ''G'')]))
   \<and> opt_prop
       (member_update_event ''a'' (JObj [(''nickname'', JStr ''x'')])
          (JObj [(''nickname'', JStr ''y'')]) (JObj [(''name'', JStr ''G'')])) ''nodeId''
     = JStr (node_id node_a)
   \<and> field_of (guildMemberUpdate node_a
        (member_update_event ''a'' (JObj [(''nickname'', JStr ''x'')])
           (JObj [(''nickname'', JStr ''y'')]) (JObj [(''name'', JStr ''G'')])))
        (prefixed ''old'' ''nickname'')
     = Some (JStr ''x'')
   \<and> field_of (guildMemberUpdate node_a
        (member_update_event ''a'' (JObj [(''nickname'', JStr ''x'')])
           (JObj [(''nickname'', JStr ''y'')]) (JObj [(''name'', JStr ''G'')])))
        (prefixed ''guild'' ''name'')
     = Some (JStr ''G'')"
proof -
  let ?ev = "member_update_event ''a'' (JObj [(''nickname'', JStr ''x'')])
               (JObj [(''nickname'', JStr ''y'')]) (JObj [(''name'', JStr ''G'')])"
  have wf: "well_formed ''guildMemberUpdate'' ?ev"
    by (simp add: well_formed_def member_update_event_def own_prop_def)
  have own: "opt_prop ?ev ''nodeId'' = JStr (node_id node_a)"
    by (simp add: member_update_event_def own_prop_def node_a_def)
  note all = member_update_merges_prefixed
    [where payload = ?ev and ctx = node_a, THEN conjunct1, THEN mp, OF conjI, OF wf own,
     unfolded Let_def]
  note old = all [THEN conjunct2, THEN conjunct2, THEN conjunct1, rule_format,
    of "''nickname''" "JStr ''x''"]
  note guild = all [THEN conjunct2, THEN conjunct2, THEN conjunct2, THEN conjunct2, rule_format,
    of "''name''" "JStr ''G''"]
  have o: "field_of (guildMemberUpdate node_a ?ev) (prefixed ''old'' ''nickname'') = Some (JStr ''x'')"
    by (rule old) (simp add: member_update_event_def own_prop_def)
  have g: "field_of (guildMemberUpdate node_a ?ev) (prefixed ''guild'' ''name'') = Some (JStr ''G'')"
    by (rule guild) (simp add: member_update_event_def own_prop_def)
  from wf own o g show ?thesis by blast
qed

subsection \<open>Keys that differ in the case of their first letter\<close>

text \<open>
  C9. The renaming is not injective on the keys of one object: \<^verbatim>\<open>id\<close> and \<^verbatim>\<open>Id\<close> are
  different keys and both become \<^verbatim>\<open>oldId\<close>, so of an object \<^verbatim>\<open>{id: "1", Id: "2"}\<close> the
  renamed object, the merged record of a member update and the merged record of a role
  update keep one field only, with the value of the later key; the value \<^verbatim>\<open>"1"\<close> is lost.
\<close>

theorem prefix_renaming_collides:
  "''id'' \<noteq> ''Id''
   \<and> prefixed ''old'' ''id'' = ''oldId'' \<and> prefixed ''old'' ''Id'' = ''oldId''
   \<and> addPrefix (JObj [(''id'', JStr ''1''), (''Id'', JStr ''2'')]) ''old''
      = Inr (JObj [(''oldId'', JStr ''2'')])
   \<and> guildMemberUpdate node_a
        (member_update_event ''a'' (JObj [(''id'', JStr ''1''), (''Id'', JStr ''2'')])
           (JObj []) (JObj []))
      = Inr [JObj [(''oldId'', JStr ''2'')]]
   \<and> roleUpdate node_a
        (role_update_event ''a'' (JObj [(''id'', JStr ''1''), (''Id'', JStr ''2'')]) (JObj []))
      = Inr [JObj [(''oldId'', JStr ''2'')]]"
  by code_simp

subsection \<open>The reference fields of a message\<close>

text \<open>
  C8, as stated: with a message reference, the reference fields are populated from the
  reference object. This fails for two of the five: \<^verbatim>\<open>referenceAuthorId\<close> and
  \<^verbatim>\<open>referenceAuthorName\<close> are read from \<^verbatim>\<open>referenceAuthor\<close>, another part of the payload,
  so two events with the same reference object give different values.
\<close>

theorem reference_author_separate_counterexample:
  "opt_prop (message_event ''a''
       (JObj [(''id'', JStr ''m0''), (''content'', JStr ''first''), (''createdTimestamp'', JNum 1600)])
       (JObj [(''id'', JStr ''u7''), (''username'', JStr ''bob'')]) JUndefined) ''messageReference''
   = opt_prop (message_event ''a''
       (JObj [(''id'', JStr ''m0''), (''content'', JStr ''first''), (''createdTimestamp'', JNum 1600)])
       (JObj [(''id'', JStr ''u8''), (''username'', JStr ''eve'')]) JUndefined) ''messageReference''
   \<and> field_of (messageCreate node_a (message_event ''a''
       (JObj [(''id'', JStr ''m0''), (''content'', JStr ''first''), (''createdTimestamp'', JNum 1600)])
       (JObj [(''id'', JStr ''u7''), (''username'', JStr ''bob'')]) JUndefined)) ''referenceAuthorId''
     = Some (JStr ''u7'')
   \<and> field_of (messageCreate node_a (message_event ''a''
       (JObj [(''id'', JStr ''m0''), (''content'', JStr ''first''), (''createdTimestamp'', JNum 1600)])
       (JObj [(''id'', JStr ''u8''), (''username'', JStr ''eve'')]) JUndefined)) ''referenceAuthorId''
     = Some (JStr ''u8'')"
  by code_simp

text \<open>
  C8, amended. For a \<^verbatim>\<open>messageCreate\<close> addressed to the node, whose parts are there: when
  the payload has no message reference, the five reference fields of the record are
  \<^verbatim>\<open>null\<close>; when it has one, all five are set, \<^verbatim>\<open>referenceId\<close>, \<^verbatim>\<open>referenceContent\<close> and
  \<^verbatim>\<open>referenceTimestamp\<close> from the reference object and \<^verbatim>\<open>referenceAuthorId\<close> and
  \<^verbatim>\<open>referenceAuthorName\<close> from \<^verbatim>\<open>referenceAuthor\<close>. The record has an \<^verbatim>\<open>attachments\<close>
  field, holding the payload's attachments, iff the payload's attachments are truthy.
  \<^verbatim>\<open>listenValue\<close> is the node's own parameter \<^verbatim>\<open>value\<close>.
\<close>

theorem message_reference_fields:
  "well_formed ''messageCreate'' payload \<and> opt_prop payload ''nodeId'' = JStr (node_id ctx) \<longrightarrow>
     (let out = field_of (messageCreate ctx payload);
          messageReference = opt_prop payload ''messageReference'';
          referenceAuthor = opt_prop payload ''referenceAuthor'';
          attachments = opt_prop payload ''attachments''
      in (\<not> truthy messageReference \<longrightarrow>
            out ''referenceId'' = Some JNull
            \<and> out ''referenceContent'' = Some JNull
            \<and> out ''referenceAuthorId'' = Some JNull
            \<and> out ''referenceAuthorName'' = Some JNull
            \<and> out ''referenceTimestamp'' = Some JNull)
         \<and> (truthy messageReference \<longrightarrow>
            out ''referenceId'' = Some (opt_prop messageReference ''id'')
            \<and> out ''referenceContent'' = Some (opt_prop messageReference ''content'')
            \<and> out ''referenceAuthorId'' = Some (opt_prop referenceAuthor ''id'')
            \<and> out ''referenceAuthorName'' = Some (opt_prop referenceAuthor ''username'')
            \<and> out ''referenceTimestamp'' = Some (opt_prop messageReference ''createdTimestamp''))
         \<and> (truthy attachments \<longrightarrow> out ''attachments'' = Some attachments)
         \<and> (\<not> truthy attachments \<longrightarrow> out ''attachments'' = None)
         \<and> out ''listenValue'' = Some (getNodeParameter ctx ''value'' (JStr [])))"
  by (simp add: messageCreate_def Let_def well_formed_def truthy_not_nullish set_prop_def)

theorem message_reference_fields_witness:
  "well_formed ''messageCreate'' (message_event ''a'' JNull JNull JUndefined)
   \<and> \<not> truthy (opt_prop (message_event ''a'' JNull JNull JUndefined) ''messageReference'')
   \<and> \<not> truthy (opt_prop (message_event ''a'' JNull JNull JUndefined) ''attachments'')
   \<and> field_of (messageCreate node_a (message_event ''a'' JNull JNull JUndefined))
        ''referenceAuthorId'' = Some JNull
   \<and> field_of (messageCreate node_a (message_event ''a'' JNull JNull JUndefined))
        ''attachments'' = None
   \<and> well_formed ''messageCreate''
        (message_event ''a'' (JObj [(''id'', JStr ''m0'')]) (JObj [(''id'', JStr ''u7'')])
           (JArr [JStr ''file'']))
   \<and> truthy (opt_prop
        (message_event ''a'' (JObj [(''id'', JStr ''m0'')]) (JObj [(''id'', JStr ''u7'')])
           (JArr [JStr ''file''])) ''messageReference'')
   \<and> field_of (messageCreate node_a
        (message_event ''a'' (JObj [(''id'', JStr ''m0'')]) (JObj [(''id'', JStr ''u7'')])
           (JArr [JStr ''file''])))
        ''referenceId'' = Some (JStr ''m0'')
   \<and> field_of (messageCreate node_a
        (message_event ''a'' (JObj [(''id'', JStr ''m0'')]) (JObj [(''id'', JStr ''u7'')])
           (JArr [JStr ''file''])))
        ''attachments'' = Some (JArr [JStr ''file''])"
proof -
  let ?plain = "message_event ''a'' JNull JNull JUndefined"
  let ?reply = "message_event ''a'' (JObj [(''id'', JStr ''m0'')]) (JObj [(''id'', JStr ''u7'')])
                  (JArr [JStr ''file''])"
  have wf1: "well_formed ''messageCreate'' ?plain"
    by (simp add: well_formed_def message_event_def own_prop_def)
  have own1: "opt_prop ?plain ''nodeId'' = JStr (node_id node_a)"
    by (simp add: message_event_def own_prop_def node_a_def)
  have r1: "\<not> truthy (opt_prop ?plain ''messageReference'')"
    by (simp add: message_event_def own_prop_def)
  have a1: "\<not> truthy (opt_prop ?plain ''attachments'')"
    by (simp add: message_event_def own_prop_def)
  have wf2: "well_formed ''messageCreate'' ?reply"
    by (simp add: well_formed_def message_event_def own_prop_def)
  have own2: "opt_prop ?reply ''nodeId'' = JStr (node_id node_a)"
    by (simp add: message_event_def own_prop_def node_a_def)
  have r2: "truthy (opt_prop ?reply ''messageReference'')"
    by (simp add: message_event_def own_prop_def)
  have a2: "truthy (opt_prop ?reply ''attachments'')"
    by (simp add: message_event_def own_prop_def)
  note plain = message_reference_fields
    [where payload = ?plain and ctx = node_a, THEN mp, OF conjI, OF wf1 own1, unfolded Let_def]
  note reply = message_reference_fields
    [where payload = ?reply and ctx = node_a, THEN mp, OF conjI, OF wf2 own2, unfolded Let_def]
  from plain [THEN conjunct1, THEN mp, OF r1]
  have f1: "field_of (messageCreate node_a ?plain) ''referenceAuthorId'' = Some JNull"
    by blast
  from plain [THEN conjunct2, THEN conjunct2, THEN conjunct2, THEN conjunct1, THEN mp, OF a1]
  have f2: "field_of (messageCreate node_a ?plain) ''attachments'' = None" .
  from reply [THEN conjunct2, THEN conjunct1, THEN mp, OF r2]
  have f3: "field_of (messageCreate node_a ?reply) ''referenceId'' = Some (JStr ''m0'')"
    by (simp add: message_event_def own_prop_def)
  from reply [THEN conjunct2, THEN conjunct2, THEN conjunct1, THEN mp, OF a2]
  have f4: "field_of (messageCreate node_a ?reply) ''attachments'' = Some (JArr [JStr ''file''])"
    by (simp add: message_event_def own_prop_def)
  from wf1 r1 a1 f1 f2 wf2 r2 f3 f4 show ?thesis by blast
qed

end
